theory Spec2Isabelle
  imports Main "HOL-Library.Sublist" "HOL-Library.Word"
begin

section \<open>JavaScript values\<close>

text \<open>
  Request contents, responses and thrown values are JavaScript values. Strings are lists
  of characters (each character stands for one UTF-16 code unit, which is what
  \<^verbatim>\<open>length\<close>, \<^verbatim>\<open>slice\<close> and \<^verbatim>\<open>+=\<close> count). Numbers are the integers from \<open>- 2 ^ 53\<close> to
  \<open>2 ^ 53 - 1\<close>, carried by 54-bit words read as signed: a double holds each of them
  exactly and \<^verbatim>\<open>String\<close> prints each in plain decimal digits. Objects are plain objects
  (their prototype is \<^verbatim>\<open>Object.prototype\<close>) given by their own properties, as an association
  list in which the first pair for a name is the property; arrays have no properties of
  their own besides their elements, and no value is a function.
\<close>

datatype json =
    JUndefined
  | JNull
  | JBool bool
  | JNum "54 word"
  | JStr string
  | JArr "json list"
  | JObj "(string \<times> json) list"

text \<open>
  A thrown value is an exception object with its \<^verbatim>\<open>message\<close> (what \<^verbatim>\<open>new Error(m)\<close>
  builds, and what the browser rejects promises with), or any other JavaScript value.
\<close>

datatype thrown = Error string | Thrown json

text \<open>Property access \<^verbatim>\<open>obj.name\<close> on an object literal: a missing property reads as \<^verbatim>\<open>undefined\<close>.\<close>

definition get_prop :: "(string \<times> json) list \<Rightarrow> string \<Rightarrow> json" where
  "get_prop obj name = (case map_of obj name of None \<Rightarrow> JUndefined | Some v \<Rightarrow> v)"

text \<open>The nullish coalescing operator \<^verbatim>\<open>a ?? b\<close>.\<close>

definition nullish :: "json \<Rightarrow> json \<Rightarrow> json" where
  "nullish a b = (if a = JUndefined \<or> a = JNull then b else a)"

fun digits :: "nat \<Rightarrow> string" where
  "digits n =
     (if n < 10 then [char_of (48 + n)]
      else digits (n div 10) @ [char_of (48 + n mod 10)])"

text \<open>
  \<^verbatim>\<open>Array.prototype.join\<close> on the converted elements: the first element whose conversion
  throws ends the join with what it threw.
\<close>

fun join_comma :: "(thrown + string) list \<Rightarrow> thrown + string" where
  "join_comma [] = Inr []"
| "join_comma [x] = x"
| "join_comma (x # y # xs) =
     (case x of
        Inl e \<Rightarrow> Inl e
      | Inr s \<Rightarrow> (case join_comma (y # xs) of Inl e \<Rightarrow> Inl e | Inr t \<Rightarrow> Inr (s @ '','' @ t)))"

text \<open>The \<^verbatim>\<open>TypeError\<close> that Chrome throws when an object has no primitive value.\<close>

definition cannot_convert :: thrown where
  "cannot_convert = Error ''Cannot convert object to primitive value''"

text \<open>
  The conversion \<^verbatim>\<open>String(v)\<close>, which may throw. Array elements are joined with commas,
  \<^verbatim>\<open>null\<close> and \<^verbatim>\<open>undefined\<close> elements giving the empty string. A plain object gives
  \<^verbatim>\<open>[object Object]\<close> through the inherited \<^verbatim>\<open>toString\<close>; an own property \<^verbatim>\<open>toString\<close>
  hides that method and cannot be called, the inherited \<^verbatim>\<open>valueOf\<close> returns the object
  itself, and the conversion throws.
\<close>

fun String_js :: "json \<Rightarrow> thrown + string" where
  "String_js JUndefined = Inr ''undefined''"
| "String_js JNull = Inr ''null''"
| "String_js (JBool b) = Inr (if b then ''true'' else ''false'')"
| "String_js (JNum n) =
     Inr (if sint n < 0 then ''-'' @ digits (nat (- sint n)) else digits (nat (sint n)))"
| "String_js (JStr s) = Inr s"
| "String_js (JArr vs) =
     join_comma (map (\<lambda>v. if v = JUndefined \<or> v = JNull then Inr [] else String_js v) vs)"
| "String_js (JObj fs) =
     (if map_of fs ''toString'' \<noteq> None then Inl cannot_convert else Inr ''[object Object]'')"

section \<open>The browser capability, as one call of \<^verbatim>\<open>send\<close> meets it\<close>

text \<open>An awaited promise resolves, rejects, or never settles (\<open>Pending\<close>).\<close>

datatype 'a promise = Resolved 'a | Rejected thrown | Pending

datatype availability = Unavailable | Available | Downloadable | Downloading

text \<open>The opaque session handle that \<^verbatim>\<open>LanguageModel.create\<close> resolves to.\<close>

datatype LanguageModel = Handle nat

text \<open>What \<^verbatim>\<open>reader.read()\<close> resolves to: \<^verbatim>\<open>{done: false, value}\<close> or \<^verbatim>\<open>{done: true}\<close>.\<close>

datatype read_result = Value string | Done

text \<open>A stream reader: the outcome of its \<open>i\<close>-th \<^verbatim>\<open>read()\<close>, counted from 0.\<close>

type_synonym reader = "nat \<Rightarrow> read_result promise"

text \<open>
  The ambient capability during one call: whether the global \<^verbatim>\<open>LanguageModel\<close> is defined,
  what \<^verbatim>\<open>availability()\<close> and \<^verbatim>\<open>create(options)\<close> settle to (the argument of \<open>create\<close>
  says whether a \<^verbatim>\<open>monitor\<close> is passed), and what \<^verbatim>\<open>promptStreaming\<close> does on a session and
  a prompt (throw, or hand out a stream).
\<close>

record env =
  LanguageModel_defined :: bool
  availability :: "availability promise"
  create :: "bool \<Rightarrow> LanguageModel promise"
  promptStreaming :: "LanguageModel \<Rightarrow> string \<Rightarrow> thrown + reader"

text \<open>The calls a \<^verbatim>\<open>send\<close> makes on its surroundings, in order.\<close>

datatype effect =
    ConsoleLog string string
  | CallAvailability
  | CallCreate bool
  | CallPromptStreaming LanguageModel string
  | GetReader
  | Read
  | OnChunk string
  | ReleaseLock

text \<open>
  The optional callback \<^verbatim>\<open>onChunk\<close> acts on a state of its caller's and may throw:
  \<open>f chunk w = (Some e, w')\<close> when it throws \<open>e\<close>, \<open>(None, w')\<close> when it returns.
\<close>

type_synonym 'w callback = "string \<Rightarrow> 'w \<Rightarrow> thrown option \<times> 'w"

section \<open>\<^verbatim>\<open>ChatSession\<close> of kernel.ts\<close>

record ChatSession =
  session :: "LanguageModel option"

definition new_ChatSession :: ChatSession where
  "new_ChatSession = \<lparr>session = None\<rparr>"

text \<open>
  The read loop, kernel.ts lines 57 to 64; \<open>i\<close> counts the reads made so far. A result
  \<open>None\<close> is a loop that never exits: a read that never settles, or a stream that never
  reports \<^verbatim>\<open>done\<close>.
\<close>

partial_function (option) send_loop ::
  "reader \<Rightarrow> 'w callback option \<Rightarrow> nat \<Rightarrow> string \<Rightarrow> 'w \<Rightarrow> effect list
     \<Rightarrow> ((thrown + string) \<times> 'w \<times> effect list) option"
where
  "send_loop rd onChunk i reply w tr =
     (case rd i of
        Pending \<Rightarrow> None
      | Rejected e \<Rightarrow> Some (Inl e, w, tr @ [Read])
      | Resolved Done \<Rightarrow> Some (Inr reply, w, tr @ [Read])
      | Resolved (Value v) \<Rightarrow>
          (case onChunk of
             None \<Rightarrow> send_loop rd onChunk (Suc i) (reply @ v) w (tr @ [Read])
           | Some f \<Rightarrow>
               if v \<noteq> [] then
                 (case f v w of
                    (Some e, w') \<Rightarrow> Some (Inl e, w', tr @ [Read, OnChunk v])
                  | (None, w') \<Rightarrow>
                      send_loop rd onChunk (Suc i) (reply @ v) w' (tr @ [Read, OnChunk v]))
               else send_loop rd onChunk (Suc i) (reply @ v) w (tr @ [Read])))"

declare send_loop.simps [code]

text \<open>
  Lines 37 to 50: reuse the stored session, or create one and store it. The \<^verbatim>\<open>monitor\<close>
  passed at line 39 only writes the download progress to the console; the flag of
  \<open>CallCreate\<close> records whether it is passed. A rejected \<^verbatim>\<open>create\<close> leaves the field null.
\<close>

definition provision ::
  "env \<Rightarrow> availability \<Rightarrow> ChatSession
     \<Rightarrow> ((thrown + LanguageModel) \<times> ChatSession \<times> effect list) option"
where
  "provision e a this =
     (case session this of
        Some s \<Rightarrow> Some (Inr s, this, [])
      | None \<Rightarrow>
          (let monitor = (a = Downloadable \<or> a = Downloading) in
           case create e monitor of
             Pending \<Rightarrow> None
           | Rejected err \<Rightarrow> Some (Inl err, this, [CallCreate monitor])
           | Resolved s \<Rightarrow> Some (Inr s, this\<lparr>session := Some s\<rparr>, [CallCreate monitor])))"

text \<open>Lines 52 to 69: open the stream, run the loop inside \<^verbatim>\<open>try\<close>, release in \<^verbatim>\<open>finally\<close>.\<close>

definition consume ::
  "env \<Rightarrow> LanguageModel \<Rightarrow> string \<Rightarrow> 'w callback option \<Rightarrow> 'w
     \<Rightarrow> ((thrown + string) \<times> 'w \<times> effect list) option"
where
  "consume e s prompt onChunk w =
     (case promptStreaming e s prompt of
        Inl err \<Rightarrow> Some (Inl err, w, [CallPromptStreaming s prompt])
      | Inr rd \<Rightarrow>
          (case send_loop rd onChunk 0 [] w [CallPromptStreaming s prompt, GetReader] of
             None \<Rightarrow> None
           | Some (r, w', tr) \<Rightarrow> Some (r, w', tr @ [ReleaseLock])))"

text \<open>
  \<^verbatim>\<open>ChatSession.send\<close>, kernel.ts lines 27 to 70. The result is \<open>None\<close> when the call never
  returns; otherwise the thrown value or the reply, the object after the call, the
  callback's state and the effects in order.
\<close>

definition send ::
  "env \<Rightarrow> string \<Rightarrow> 'w callback option \<Rightarrow> ChatSession \<Rightarrow> 'w
     \<Rightarrow> ((thrown + string) \<times> ChatSession \<times> 'w \<times> effect list) option"
where
  "send e prompt onChunk this w =
     (if \<not> LanguageModel_defined e then
        Some (Inl (Error ''Browser does not support Chrome built-in AI.''), this, w, [])
      else
        case availability e of
          Pending \<Rightarrow> None
        | Rejected err \<Rightarrow> Some (Inl err, this, w, [CallAvailability])
        | Resolved a \<Rightarrow>
            if a = Unavailable then
              Some (Inl (Error ''Chrome built-in AI model is not available.''), this, w,
                    [CallAvailability])
            else
              (case provision e a this of
                 None \<Rightarrow> None
               | Some (Inl err, this', tr1) \<Rightarrow> Some (Inl err, this', w, CallAvailability # tr1)
               | Some (Inr s, this', tr1) \<Rightarrow>
                   (case consume e s prompt onChunk w of
                      None \<Rightarrow> None
                    | Some (r, w', tr2) \<Rightarrow>
                        Some (r, this', w', CallAvailability # tr1 @ tr2))))"

section \<open>\<^verbatim>\<open>ChatSession\<close> of ChatSession.ts, which reads snapshots\<close>

text \<open>
  The read loop of ChatSession.ts, lines 73 to 84: each value is taken as the whole reply
  so far, \<^verbatim>\<open>value.slice(previousLength)\<close> is handed to the callback and \<^verbatim>\<open>reply\<close> is
  overwritten.
\<close>

partial_function (option) ChatSession_ts_send_loop ::
  "reader \<Rightarrow> 'w callback option \<Rightarrow> nat \<Rightarrow> string \<Rightarrow> nat \<Rightarrow> 'w \<Rightarrow> effect list
     \<Rightarrow> ((thrown + string) \<times> 'w \<times> effect list) option"
where
  "ChatSession_ts_send_loop rd onChunk i reply previousLength w tr =
     (case rd i of
        Pending \<Rightarrow> None
      | Rejected e \<Rightarrow> Some (Inl e, w, tr @ [Read])
      | Resolved Done \<Rightarrow> Some (Inr reply, w, tr @ [Read])
      | Resolved (Value v) \<Rightarrow>
          (let newContent = drop previousLength v in
           case onChunk of
             None \<Rightarrow> ChatSession_ts_send_loop rd onChunk (Suc i) v (length v) w (tr @ [Read])
           | Some f \<Rightarrow>
               if newContent \<noteq> [] then
                 (case f newContent w of
                    (Some e, w') \<Rightarrow> Some (Inl e, w', tr @ [Read, OnChunk newContent])
                  | (None, w') \<Rightarrow>
                      ChatSession_ts_send_loop rd onChunk (Suc i) v (length v) w'
                        (tr @ [Read, OnChunk newContent]))
               else ChatSession_ts_send_loop rd onChunk (Suc i) v (length v) w (tr @ [Read])))"

declare ChatSession_ts_send_loop.simps [code]

text \<open>Lines 66 to 89 of ChatSession.ts.\<close>

definition ChatSession_ts_consume ::
  "env \<Rightarrow> LanguageModel \<Rightarrow> string \<Rightarrow> 'w callback option \<Rightarrow> 'w
     \<Rightarrow> ((thrown + string) \<times> 'w \<times> effect list) option"
where
  "ChatSession_ts_consume e s prompt onChunk w =
     (case promptStreaming e s prompt of
        Inl err \<Rightarrow> Some (Inl err, w, [CallPromptStreaming s prompt])
      | Inr rd \<Rightarrow>
          (case ChatSession_ts_send_loop rd onChunk 0 [] 0 w
                  [CallPromptStreaming s prompt, GetReader] of
             None \<Rightarrow> None
           | Some (r, w', tr) \<Rightarrow> Some (r, w', tr @ [ReleaseLock])))"

text \<open>
  \<^verbatim>\<open>ChatSession.send\<close> of ChatSession.ts, lines 36 to 90. Its lines 38 to 64 are the
  statements of kernel.ts lines 28 to 50, so \<open>provision\<close> serves both.
\<close>

definition ChatSession_ts_send ::
  "env \<Rightarrow> string \<Rightarrow> 'w callback option \<Rightarrow> ChatSession \<Rightarrow> 'w
     \<Rightarrow> ((thrown + string) \<times> ChatSession \<times> 'w \<times> effect list) option"
where
  "ChatSession_ts_send e prompt onChunk this w =
     (if \<not> LanguageModel_defined e then
        Some (Inl (Error ''Browser does not support Chrome built-in AI.''), this, w, [])
      else
        case availability e of
          Pending \<Rightarrow> None
        | Rejected err \<Rightarrow> Some (Inl err, this, w, [CallAvailability])
        | Resolved a \<Rightarrow>
            if a = Unavailable then
              Some (Inl (Error ''Chrome built-in AI model is not available.''), this, w,
                    [CallAvailability])
            else
              (case provision e a this of
                 None \<Rightarrow> None
               | Some (Inl err, this', tr1) \<Rightarrow> Some (Inl err, this', w, CallAvailability # tr1)
               | Some (Inr s, this', tr1) \<Rightarrow>
                   (case ChatSession_ts_consume e s prompt onChunk w of
                      None \<Rightarrow> None
                    | Some (r, w', tr2) \<Rightarrow>
                        Some (r, this', w', CallAvailability # tr1 @ tr2))))"

section \<open>The inline \<^verbatim>\<open>ChatSession\<close> of federation.ts\<close>

text \<open>The read loop of federation.ts, lines 140 to 149.\<close>

partial_function (option) federation_send_loop ::
  "reader \<Rightarrow> 'w callback option \<Rightarrow> nat \<Rightarrow> string \<Rightarrow> 'w \<Rightarrow> effect list
     \<Rightarrow> ((thrown + string) \<times> 'w \<times> effect list) option"
where
  "federation_send_loop rd onChunk i reply w tr =
     (case rd i of
        Pending \<Rightarrow> None
      | Rejected e \<Rightarrow> Some (Inl e, w, tr @ [Read])
      | Resolved Done \<Rightarrow> Some (Inr reply, w, tr @ [Read])
      | Resolved (Value v) \<Rightarrow>
          (case onChunk of
             None \<Rightarrow> federation_send_loop rd onChunk (Suc i) (reply @ v) w (tr @ [Read])
           | Some f \<Rightarrow>
               if v \<noteq> [] then
                 (case f v w of
                    (Some e, w') \<Rightarrow> Some (Inl e, w', tr @ [Read, OnChunk v])
                  | (None, w') \<Rightarrow>
                      federation_send_loop rd onChunk (Suc i) (reply @ v) w'
                        (tr @ [Read, OnChunk v]))
               else federation_send_loop rd onChunk (Suc i) (reply @ v) w (tr @ [Read])))"

declare federation_send_loop.simps [code]

text \<open>Lines 117 to 132 of federation.ts.\<close>

definition federation_provision ::
  "env \<Rightarrow> availability \<Rightarrow> ChatSession
     \<Rightarrow> ((thrown + LanguageModel) \<times> ChatSession \<times> effect list) option"
where
  "federation_provision e a this =
     (case session this of
        Some s \<Rightarrow> Some (Inr s, this, [])
      | None \<Rightarrow>
          (let monitor = (a = Downloadable \<or> a = Downloading) in
           case create e monitor of
             Pending \<Rightarrow> None
           | Rejected err \<Rightarrow> Some (Inl err, this, [CallCreate monitor])
           | Resolved s \<Rightarrow> Some (Inr s, this\<lparr>session := Some s\<rparr>, [CallCreate monitor])))"

text \<open>Lines 135 to 155 of federation.ts: the reply is logged after the \<^verbatim>\<open>finally\<close> block.\<close>

definition federation_consume ::
  "env \<Rightarrow> LanguageModel \<Rightarrow> string \<Rightarrow> 'w callback option \<Rightarrow> 'w
     \<Rightarrow> ((thrown + string) \<times> 'w \<times> effect list) option"
where
  "federation_consume e s prompt onChunk w =
     (case promptStreaming e s prompt of
        Inl err \<Rightarrow> Some (Inl err, w, [CallPromptStreaming s prompt])
      | Inr rd \<Rightarrow>
          (case federation_send_loop rd onChunk 0 [] w
                  [CallPromptStreaming s prompt, GetReader] of
             None \<Rightarrow> None
           | Some (Inl err, w', tr) \<Rightarrow> Some (Inl err, w', tr @ [ReleaseLock])
           | Some (Inr reply, w', tr) \<Rightarrow>
               Some (Inr reply, w',
                     tr @ [ReleaseLock,
                           ConsoleLog ''[ChatSession] Got reply from Chrome built-in AI:'' reply])))"

text \<open>\<^verbatim>\<open>ChatSession.send\<close> of federation.ts, lines 102 to 156.\<close>

definition federation_send ::
  "env \<Rightarrow> string \<Rightarrow> 'w callback option \<Rightarrow> ChatSession \<Rightarrow> 'w
     \<Rightarrow> ((thrown + string) \<times> ChatSession \<times> 'w \<times> effect list) option"
where
  "federation_send e prompt onChunk this w =
     (let log1 = ConsoleLog ''[ChatSession] Sending prompt to Chrome built-in AI:'' prompt in
      if \<not> LanguageModel_defined e then
        Some (Inl (Error ''Browser does not support Chrome built-in AI.''), this, w, [log1])
      else
        case availability e of
          Pending \<Rightarrow> None
        | Rejected err \<Rightarrow> Some (Inl err, this, w, [log1, CallAvailability])
        | Resolved a \<Rightarrow>
            if a = Unavailable then
              Some (Inl (Error ''Chrome built-in AI model is not available.''), this, w,
                    [log1, CallAvailability])
            else
              (case federation_provision e a this of
                 None \<Rightarrow> None
               | Some (Inl err, this', tr1) \<Rightarrow>
                   Some (Inl err, this', w, log1 # CallAvailability # tr1)
               | Some (Inr s, this', tr1) \<Rightarrow>
                   (case federation_consume e s prompt onChunk w of
                      None \<Rightarrow> None
                    | Some (r, w', tr2) \<Rightarrow>
                        Some (r, this', w', log1 # CallAvailability # tr1 @ tr2))))"

section \<open>\<^verbatim>\<open>BuiltInChatKernel\<close> of kernel.ts\<close>

text \<open>
  What the kernel hands to its host through the inherited \<^verbatim>\<open>BaseKernel\<close> methods
  \<^verbatim>\<open>stream(content, parentHeader)\<close> and \<^verbatim>\<open>publishExecuteError(content, parentHeader)\<close>.
  Both belong to the host and are taken to return normally.
\<close>

datatype published = Stream json json | PublishExecuteError json json

text \<open>
  The kernel object: its \<^verbatim>\<open>chat\<close> field, the inherited \<^verbatim>\<open>executionCount\<close> and
  \<^verbatim>\<open>parentHeader\<close> that the host maintains, and \<open>iopub\<close>, what has been published so far.
\<close>

record BuiltInChatKernel =
  chat :: ChatSession
  executionCount :: "54 word"
  parentHeader :: json
  iopub :: "published list"

text \<open>
  The expression \<^verbatim>\<open>err?.message ?? String(err)\<close> of line 107, which throws when
  \<^verbatim>\<open>String(err)\<close> does. An exception object has its message, so \<^verbatim>\<open>String\<close> is not
  reached for it.
\<close>

definition error_message :: "thrown \<Rightarrow> thrown + json" where
  "error_message err =
     (case err of
        Error m \<Rightarrow> Inr (JStr m)
      | Thrown v \<Rightarrow>
          (let message = (case v of JObj fs \<Rightarrow> get_prop fs ''message'' | _ \<Rightarrow> JUndefined) in
           if message = JUndefined \<or> message = JNull then
             (case String_js v of Inl e \<Rightarrow> Inl e | Inr s \<Rightarrow> Inr (JStr s))
           else Inr message))"

text \<open>The arrow function of lines 93 to 98, passed as \<^verbatim>\<open>onChunk\<close>.\<close>

definition stdout_chunk :: "BuiltInChatKernel \<Rightarrow> published list callback" where
  "stdout_chunk this chunk out =
     (None, out @ [Stream (JObj [(''name'', JStr ''stdout''), (''text'', JStr chunk)])
                          (parentHeader this)])"

text \<open>
  \<^verbatim>\<open>executeRequest\<close>, lines 89 to 124; \<open>content\<close> is the request's content object. The result
  is \<open>None\<close> when \<^verbatim>\<open>send\<close> never returns, \<open>Inl\<close> when the returned promise rejects and
  \<open>Inr\<close> with the response otherwise. Line 90 stands before the \<^verbatim>\<open>try\<close>, and line 107 in the
  \<^verbatim>\<open>catch\<close> block: what \<^verbatim>\<open>String\<close> throws there leaves the function.
\<close>

definition executeRequest ::
  "env \<Rightarrow> BuiltInChatKernel \<Rightarrow> (string \<times> json) list
     \<Rightarrow> ((thrown + json) \<times> BuiltInChatKernel \<times> effect list) option"
where
  "executeRequest e this content =
     (case String_js (nullish (get_prop content ''code'') (JStr [])) of
        Inl err \<Rightarrow> Some (Inl err, this, [])
      | Inr code \<Rightarrow>
          (case send e code (Some (stdout_chunk this)) (chat this) (iopub this) of
             None \<Rightarrow> None
           | Some (Inr reply, chat', out, tr) \<Rightarrow>
               Some (Inr (JObj [(''status'', JStr ''ok''),
                                (''execution_count'', JNum (executionCount this)),
                                (''payload'', JArr []),
                                (''user_expressions'', JObj [])]),
                     this\<lparr>chat := chat', iopub := out\<rparr>, tr)
           | Some (Inl err, chat', out, tr) \<Rightarrow>
               (case error_message err of
                  Inl err' \<Rightarrow> Some (Inl err', this\<lparr>chat := chat', iopub := out\<rparr>, tr)
                | Inr message \<Rightarrow>
                    Some (Inr (JObj [(''status'', JStr ''error''),
                                     (''execution_count'', JNum (executionCount this)),
                                     (''ename'', JStr ''Error''),
                                     (''evalue'', message),
                                     (''traceback'', JArr [])]),
                          this\<lparr>chat := chat',
                               iopub := out @ [PublishExecuteError
                                                 (JObj [(''ename'', JStr ''Error''),
                                                        (''evalue'', message),
                                                        (''traceback'', JArr [])])
                                                 (parentHeader this)]\<rparr>,
                          tr))))"








section \<open>Observations on a trace, and the streams and inputs of the examples\<close>

text \<open>The arguments \<^verbatim>\<open>onChunk\<close> was called with, in call order.\<close>

fun chunks :: "effect list \<Rightarrow> string list" where
  "chunks [] = []"
| "chunks (OnChunk v # tr) = v # chunks tr"
| "chunks (x # tr) = chunks tr"

text \<open>The number of calls of \<^verbatim>\<open>LanguageModel.create\<close>.\<close>

fun creations :: "effect list \<Rightarrow> nat" where
  "creations [] = 0"
| "creations (CallCreate m # tr) = Suc (creations tr)"
| "creations (x # tr) = creations tr"

fun is_log :: "effect \<Rightarrow> bool" where
  "is_log (ConsoleLog a b) = True"
| "is_log x = False"

text \<open>What the read loops add to a trace: reads and callback calls only.\<close>

definition loop_effects :: "effect list \<Rightarrow> bool" where
  "loop_effects ext = (\<forall>x \<in> set ext. x = Read \<or> (\<exists>v. x = OnChunk v))"

text \<open>A stream of cumulative snapshots: each value extends the value read before it.\<close>

definition cumulative :: "reader \<Rightarrow> bool" where
  "cumulative rd =
     (\<forall>i v v'. rd i = Resolved (Value v) \<and> rd (Suc i) = Resolved (Value v') \<longrightarrow> prefix v v')"

text \<open>A stream that yields the values \<open>vs\<close>, in order, and then reports \<^verbatim>\<open>done\<close>.\<close>

definition yields :: "reader \<Rightarrow> string list \<Rightarrow> bool" where
  "yields rd vs =
     (map rd [0 ..< length vs] = map (\<lambda>v. Resolved (Value v)) vs
      \<and> rd (length vs) = Resolved Done)"

text \<open>A stream that, from its \<open>i\<close>-th read on, yields \<open>vs\<close> and then reports \<^verbatim>\<open>done\<close>.\<close>

definition yields_from :: "reader \<Rightarrow> nat \<Rightarrow> string list \<Rightarrow> bool" where
  "yields_from rd i vs =
     ((\<forall>j < length vs. rd (i + j) = Resolved (Value (vs ! j)))
      \<and> rd (i + length vs) = Resolved Done)"


text \<open>The stream events that the callback of \<^verbatim>\<open>executeRequest\<close> publishes for given chunks.\<close>

definition stdout_events :: "BuiltInChatKernel \<Rightarrow> string list \<Rightarrow> published list" where
  "stdout_events this vs =
     map (\<lambda>v. Stream (JObj [(''name'', JStr ''stdout''), (''text'', JStr v)])
                      (parentHeader this)) vs"

text \<open>Dropping the console output from the result of a call.\<close>

definition without_logs ::
  "((thrown + string) \<times> ChatSession \<times> 'w \<times> effect list)
     \<Rightarrow> ((thrown + string) \<times> ChatSession \<times> 'w \<times> effect list)"
where
  "without_logs y =
     (case y of (r, this, w, tr) \<Rightarrow> (r, this, w, filter (\<lambda>x. \<not> is_log x) tr))"

text \<open>
  Concrete surroundings: a reader that yields \<open>vs\<close> and then settles every further read
  as \<open>t\<close>; a capability that reports \<open>a\<close>, creates the session \<open>Handle 0\<close> and streams
  \<open>rd\<close> for every prompt; callbacks that record their argument, or throw; a kernel.
\<close>

definition reader_of :: "string list \<Rightarrow> read_result promise \<Rightarrow> reader" where
  "reader_of vs t i = (if i < length vs then Resolved (Value (vs ! i)) else t)"

definition capability :: "availability \<Rightarrow> reader \<Rightarrow> env" where
  "capability a rd =
     \<lparr>LanguageModel_defined = True,
      availability = Resolved a,
      create = (\<lambda>monitor. Resolved (Handle 0)),
      promptStreaming = (\<lambda>s prompt. Inr rd)\<rparr>"

definition no_capability :: env where
  "no_capability =
     \<lparr>LanguageModel_defined = False,
      availability = Pending,
      create = (\<lambda>monitor. Pending),
      promptStreaming = (\<lambda>s prompt. Inl (Error ''no session''))\<rparr>"

definition record_chunk :: "string list callback" where
  "record_chunk chunk w = (None, w @ [chunk])"

definition failing_chunk :: "string list callback" where
  "failing_chunk chunk w = (Some (Error ''callback failed''), w)"

definition a_kernel :: BuiltInChatKernel where
  "a_kernel =
     \<lparr>chat = new_ChatSession,
      executionCount = 7,
      parentHeader = JObj [(''msg_id'', JStr ''m1'')],
      iopub = []\<rparr>"

section \<open>Facts about the read loops\<close>

lemma chunks_append: "chunks (a @ b) = chunks a @ chunks b"
  by (induction a rule: chunks.induct) simp_all

lemma creations_append: "creations (a @ b) = creations a + creations b"
  by (induction a rule: creations.induct) simp_all

lemma loop_effects_facts:
  assumes "loop_effects ext"
  shows "creations ext = 0" and "ReleaseLock \<notin> set ext" and "GetReader \<notin> set ext"
    and "filter (\<lambda>x. \<not> is_log x) ext = ext" and "CallPromptStreaming s q \<notin> set ext"
proof -
  show "creations ext = 0" using assms
    by (induction ext rule: creations.induct) (auto simp: loop_effects_def)
  show "ReleaseLock \<notin> set ext" "GetReader \<notin> set ext" "CallPromptStreaming s q \<notin> set ext"
    using assms by (auto simp: loop_effects_def)
  show "filter (\<lambda>x. \<not> is_log x) ext = ext" using assms
    by (induction ext) (auto simp: loop_effects_def)
qed

lemmas loop_splits = promise.splits read_result.splits option.splits if_splits prod.splits

text \<open>A read that never settles keeps the loop, and with it the call, from returning.\<close>

lemma send_loop_pending: "rd i = Pending \<Longrightarrow> send_loop rd cb i reply w tr = None"
  by (simp add: send_loop.simps[of rd cb i])

lemma send_pending_read:
  "send (capability Available (reader_of [''ab''] Pending)) ''hi'' (Some record_chunk)
     new_ChatSession [] = None"
  by code_simp

text \<open>A loop that exits has added reads and callback calls to the trace, nothing else.\<close>

lemma send_loop_extends:
  assumes "send_loop rd cb i reply w tr = Some y"
  shows "\<exists>ext. snd (snd y) = tr @ ext \<and> loop_effects ext"
proof (rule send_loop.raw_induct[OF _ assms], goal_cases)
  case (1 f rd onChunk i reply w tr y)
  note IH = 1(1)
  show ?case using 1(2)
    by (auto split: loop_splits simp: loop_effects_def dest!: IH)
qed

text \<open>With a callback, \<^verbatim>\<open>reply\<close> stays the concatenation of what the callback was given.\<close>

lemma send_loop_concat:
  assumes "send_loop rd cb i reply w tr = Some y"
  shows "cb \<noteq> None \<longrightarrow> concat (chunks tr) = reply
     \<longrightarrow> (\<forall>r. fst y = Inr r \<longrightarrow> concat (chunks (snd (snd y))) = r)"
proof (rule send_loop.raw_induct[OF _ assms], goal_cases)
  case (1 f rd onChunk i reply w tr y)
  note IH = 1(1)
  show ?case using 1(2)
    by (auto split: loop_splits simp: chunks_append dest!: IH)
qed

text \<open>The kernel's callback publishes one stream event for each of its calls.\<close>

lemma send_loop_stdout:
  assumes "send_loop rd cb i reply w tr = Some y"
  shows "cb = Some (stdout_chunk k) \<longrightarrow>
     (\<forall>base. w = base @ stdout_events k (chunks tr)
        \<longrightarrow> fst (snd y) = base @ stdout_events k (chunks (snd (snd y))))"
proof (rule send_loop.raw_induct[OF _ assms], goal_cases)
  case (1 f rd onChunk i reply w tr y)
  note IH = 1(1)
  show ?case using 1(2)
    by (auto split: loop_splits simp: chunks_append stdout_events_def stdout_chunk_def dest!: IH)
qed

lemma ts_loop_extends:
  assumes "ChatSession_ts_send_loop rd cb i reply n w tr = Some y"
  shows "\<exists>ext. snd (snd y) = tr @ ext \<and> loop_effects ext"
proof (rule ChatSession_ts_send_loop.raw_induct[OF _ assms], goal_cases)
  case (1 f rd onChunk i reply n w tr y)
  note IH = 1(1)
  show ?case using 1(2)
    by (auto split: loop_splits simp: loop_effects_def Let_def dest!: IH)
qed

text \<open>
  On cumulative snapshots the slices handed to the callback add up to the last snapshot:
  \<^verbatim>\<open>reply\<close> is the value read last, and the next value extends it.
\<close>

lemma ts_loop_concat:
  assumes "ChatSession_ts_send_loop rd cb i reply n w tr = Some y"
  shows "cb \<noteq> None \<longrightarrow> cumulative rd \<longrightarrow> concat (chunks tr) = reply \<longrightarrow> n = length reply
     \<longrightarrow> (i = 0 \<and> reply = [] \<or> (\<exists>j. i = Suc j \<and> rd j = Resolved (Value reply)))
     \<longrightarrow> (\<forall>r. fst y = Inr r \<longrightarrow> concat (chunks (snd (snd y))) = r)"
proof (rule ChatSession_ts_send_loop.raw_induct[OF _ assms], goal_cases)
  case (1 f rd onChunk i reply n w tr y)
  note IH = 1(1)
  have pre: "prefix reply v"
    if "cumulative rd" "i = 0 \<and> reply = [] \<or> (\<exists>j. i = Suc j \<and> rd j = Resolved (Value reply))"
       "rd i = Resolved (Value v)" for v
    using that by (auto simp: cumulative_def)
  have app: "reply @ drop (length reply) v = v" if "prefix reply v" for v
    using that by (auto simp: prefix_def)
  show ?case
  proof (intro impI allI)
    fix r
    assume a: "onChunk \<noteq> None" "cumulative rd" "concat (chunks tr) = reply" "n = length reply"
      "i = 0 \<and> reply = [] \<or> (\<exists>j. i = Suc j \<and> rd j = Resolved (Value reply))" "fst y = Inr r"
    show "concat (chunks (snd (snd y))) = r"
    proof (cases "rd i")
      case (Resolved rr)
      show ?thesis
      proof (cases rr)
        case (Value v)
        from pre[OF a(2) a(5)] Resolved Value have p: "prefix reply v" by simp
        from a(1) obtain g where g: "onChunk = Some g" by auto
        show ?thesis
        proof (cases "drop n v = []")
          case True
          with p a(4) have "v = reply" by (auto simp: prefix_def)
          with True 1(2) Resolved Value g
          have "f rd onChunk (Suc i) v (length v) w (tr @ [Read]) = Some y"
            by (simp add: Let_def)
          from IH[OF this] a Resolved Value \<open>v = reply\<close> show ?thesis
            by (simp add: chunks_append)
        next
          case False
          obtain e w' where fw: "g (drop n v) w = (e, w')" by (cases "g (drop n v) w")
          show ?thesis
          proof (cases e)
            case None
            with False 1(2) Resolved Value g fw
            have "f rd onChunk (Suc i) v (length v) w' (tr @ [Read, OnChunk (drop n v)]) = Some y"
              by (simp add: Let_def)
            from IH[OF this] a Resolved Value app[OF p] show ?thesis
              by (simp add: chunks_append)
          next
            case (Some err)
            with False 1(2) Resolved Value g fw a(6) show ?thesis
              by (auto simp add: Let_def)
          qed
        qed
      next
        case Done
        with 1(2) Resolved a show ?thesis by (auto simp: chunks_append)
      qed
    next
      case (Rejected err)
      with 1(2) a show ?thesis by auto
    next
      case Pending
      with 1(2) show ?thesis by simp
    qed
  qed
qed

text \<open>The loop of federation.ts and the loop of kernel.ts compute the same function.\<close>

lemma federation_loop_below:
  assumes "federation_send_loop rd cb i reply w tr = Some y"
  shows "send_loop rd cb i reply w tr = Some y"
proof (rule federation_send_loop.raw_induct[OF _ assms], goal_cases)
  case (1 f rd onChunk i reply w tr y)
  note IH = 1(1)
  show ?case using 1(2)
    by (subst send_loop.simps) (auto split: loop_splits dest!: IH)
qed

lemma federation_loop_above:
  assumes "send_loop rd cb i reply w tr = Some y"
  shows "federation_send_loop rd cb i reply w tr = Some y"
proof (rule send_loop.raw_induct[OF _ assms], goal_cases)
  case (1 f rd onChunk i reply w tr y)
  note IH = 1(1)
  show ?case using 1(2)
    by (subst federation_send_loop.simps) (auto split: loop_splits dest!: IH)
qed

lemma federation_loop_eq:
  "federation_send_loop rd cb i reply w tr = send_loop rd cb i reply w tr"
proof (cases "federation_send_loop rd cb i reply w tr")
  case None
  show ?thesis
  proof (cases "send_loop rd cb i reply w tr")
    case None
    with \<open>federation_send_loop rd cb i reply w tr = None\<close> show ?thesis by simp
  next
    case (Some y)
    from federation_loop_above[OF this] None show ?thesis by simp
  qed
next
  case (Some y)
  from federation_loop_below[OF this] Some show ?thesis by simp
qed

section \<open>The shape of a call of \<^verbatim>\<open>send\<close> that exits\<close>

lemma provision_cases:
  assumes "provision e a this = Some (r, this', tr)"
  shows "(\<exists>s. session this = Some s \<and> r = Inr s \<and> this' = this \<and> tr = [])
       \<or> (session this = None \<and> (\<exists>m. tr = [CallCreate m]) \<and>
            ((\<exists>err. r = Inl err \<and> this' = this)
             \<or> (\<exists>s. r = Inr s \<and> this' = this\<lparr>session := Some s\<rparr>)))"
  using assms by (auto simp: provision_def Let_def split: option.splits promise.splits)

lemma consume_cases:
  assumes "consume e s prompt cb w = Some (r, w', tr)"
  shows "(\<exists>err. promptStreaming e s prompt = Inl err \<and> r = Inl err \<and> w' = w
            \<and> tr = [CallPromptStreaming s prompt])
       \<or> (\<exists>rd ext. promptStreaming e s prompt = Inr rd \<and> loop_effects ext
            \<and> send_loop rd cb 0 [] w [CallPromptStreaming s prompt, GetReader]
                = Some (r, w', [CallPromptStreaming s prompt, GetReader] @ ext)
            \<and> tr = [CallPromptStreaming s prompt, GetReader] @ ext @ [ReleaseLock])"
proof (cases "promptStreaming e s prompt")
  case (Inl err)
  with assms show ?thesis by (auto simp: consume_def)
next
  case (Inr rd)
  with assms obtain tr0 where
    l: "send_loop rd cb 0 [] w [CallPromptStreaming s prompt, GetReader] = Some (r, w', tr0)"
    and t: "tr = tr0 @ [ReleaseLock]"
    by (auto simp: consume_def split: option.splits)
  from send_loop_extends[OF l] obtain ext where
    "tr0 = [CallPromptStreaming s prompt, GetReader] @ ext" "loop_effects ext" by auto
  with Inr l t show ?thesis by auto
qed

lemma send_cases:
  assumes "send e prompt cb this w = Some (r, this', w', tr)"
  shows "(\<not> LanguageModel_defined e
            \<and> r = Inl (Error ''Browser does not support Chrome built-in AI.'')
            \<and> this' = this \<and> w' = w \<and> tr = [])
       \<or> (LanguageModel_defined e \<and> (\<exists>err. availability e = Rejected err \<and> r = Inl err)
            \<and> this' = this \<and> w' = w \<and> tr = [CallAvailability])
       \<or> (LanguageModel_defined e \<and> availability e = Resolved Unavailable
            \<and> r = Inl (Error ''Chrome built-in AI model is not available.'')
            \<and> this' = this \<and> w' = w \<and> tr = [CallAvailability])
       \<or> (\<exists>a tr1. LanguageModel_defined e \<and> availability e = Resolved a \<and> a \<noteq> Unavailable
            \<and> ((\<exists>err. provision e a this = Some (Inl err, this', tr1) \<and> r = Inl err \<and> w' = w
                    \<and> tr = CallAvailability # tr1)
               \<or> (\<exists>s tr2. provision e a this = Some (Inr s, this', tr1)
                    \<and> consume e s prompt cb w = Some (r, w', tr2)
                    \<and> tr = CallAvailability # tr1 @ tr2)))"
  using assms
  by (auto simp: send_def split: if_splits promise.splits option.splits sum.splits prod.splits)

lemma ts_consume_cases:
  assumes "ChatSession_ts_consume e s prompt cb w = Some (r, w', tr)"
  shows "(\<exists>err. promptStreaming e s prompt = Inl err \<and> r = Inl err \<and> w' = w
            \<and> tr = [CallPromptStreaming s prompt])
       \<or> (\<exists>rd ext. promptStreaming e s prompt = Inr rd \<and> loop_effects ext
            \<and> ChatSession_ts_send_loop rd cb 0 [] 0 w [CallPromptStreaming s prompt, GetReader]
                = Some (r, w', [CallPromptStreaming s prompt, GetReader] @ ext)
            \<and> tr = [CallPromptStreaming s prompt, GetReader] @ ext @ [ReleaseLock])"
proof (cases "promptStreaming e s prompt")
  case (Inl err)
  with assms show ?thesis by (auto simp: ChatSession_ts_consume_def)
next
  case (Inr rd)
  with assms obtain tr0 where
    l: "ChatSession_ts_send_loop rd cb 0 [] 0 w [CallPromptStreaming s prompt, GetReader]
          = Some (r, w', tr0)"
    and t: "tr = tr0 @ [ReleaseLock]"
    by (auto simp: ChatSession_ts_consume_def split: option.splits)
  from ts_loop_extends[OF l] obtain ext where
    "tr0 = [CallPromptStreaming s prompt, GetReader] @ ext" "loop_effects ext" by auto
  with Inr l t show ?thesis by auto
qed

lemma ts_send_cases:
  assumes "ChatSession_ts_send e prompt cb this w = Some (r, this', w', tr)"
  shows "(\<not> LanguageModel_defined e
            \<and> r = Inl (Error ''Browser does not support Chrome built-in AI.'')
            \<and> this' = this \<and> w' = w \<and> tr = [])
       \<or> (LanguageModel_defined e \<and> (\<exists>err. availability e = Rejected err \<and> r = Inl err)
            \<and> this' = this \<and> w' = w \<and> tr = [CallAvailability])
       \<or> (LanguageModel_defined e \<and> availability e = Resolved Unavailable
            \<and> r = Inl (Error ''Chrome built-in AI model is not available.'')
            \<and> this' = this \<and> w' = w \<and> tr = [CallAvailability])
       \<or> (\<exists>a tr1. LanguageModel_defined e \<and> availability e = Resolved a \<and> a \<noteq> Unavailable
            \<and> ((\<exists>err. provision e a this = Some (Inl err, this', tr1) \<and> r = Inl err \<and> w' = w
                    \<and> tr = CallAvailability # tr1)
               \<or> (\<exists>s tr2. provision e a this = Some (Inr s, this', tr1)
                    \<and> ChatSession_ts_consume e s prompt cb w = Some (r, w', tr2)
                    \<and> tr = CallAvailability # tr1 @ tr2)))"
  using assms
  by (auto simp: ChatSession_ts_send_def
           split: if_splits promise.splits option.splits sum.splits prod.splits)

lemma provision_trace:
  assumes "provision e a this = Some (r, this', tr)"
  shows "tr = [] \<or> (\<exists>m. tr = [CallCreate m])"
  using provision_cases[OF assms] by auto

text \<open>The trace of a call that obtained a reader ends with the release, made once.\<close>

lemma release_last:
  assumes "tr = CallAvailability # tr1 @ [CallPromptStreaming s prompt, GetReader] @ ext @ [ReleaseLock]"
    and "loop_effects ext" and "tr1 = [] \<or> (\<exists>m. tr1 = [CallCreate m])"
  shows "\<exists>tr0. tr = tr0 @ [ReleaseLock] \<and> ReleaseLock \<notin> set tr0"
proof -
  let ?tr0 = "CallAvailability # tr1 @ [CallPromptStreaming s prompt, GetReader] @ ext"
  have "tr = ?tr0 @ [ReleaseLock]" using assms(1) by simp
  moreover have "ReleaseLock \<notin> set ?tr0"
    using assms(3) loop_effects_facts(2)[OF assms(2)] by auto
  ultimately show ?thesis by blast
qed

lemma consume_creations:
  assumes "consume e s prompt cb w = Some (r, w', tr)"
  shows "creations tr = 0"
  using consume_cases[OF assms] by (auto simp: creations_append loop_effects_facts(1))

lemma send_success_creates_once:
  assumes "send e prompt cb this w = Some (Inr r, this', w', tr)" and "session this = None"
  shows "creations tr = 1 \<and> (\<exists>s. session this' = Some s)"
proof -
  from send_cases[OF assms(1)] obtain a tr1 s tr2 where
    p: "provision e a this = Some (Inr s, this', tr1)"
    and c: "consume e s prompt cb w = Some (Inr r, w', tr2)"
    and t: "tr = CallAvailability # tr1 @ tr2"
    by auto
  from provision_cases[OF p] assms(2) have "creations tr1 = 1" "session this' = Some s"
    by auto
  with t consume_creations[OF c] show ?thesis by (simp add: creations_append)
qed

lemma send_reuses_session:
  assumes "send e prompt cb this w = Some (r, this', w', tr)" and "session this = Some s"
  shows "creations tr = 0 \<and> this' = this"
  using send_cases[OF assms(1)] assms(2)
  by (auto simp: creations_append dest!: provision_cases consume_creations)

lemma yields_from_Nil: "rd i = Resolved Done \<Longrightarrow> yields_from rd i []"
  by (simp add: yields_from_def)

lemma yields_from_Cons:
  "rd i = Resolved (Value v) \<Longrightarrow> yields_from rd (Suc i) vs \<Longrightarrow> yields_from rd i (v # vs)"
  by (auto simp: yields_from_def nth_Cons split: nat.splits)

lemma yields_from_0: "yields_from rd 0 vs = yields rd vs"
proof -
  have "(map rd [0 ..< length vs] = map (\<lambda>v. Resolved (Value v)) vs)
          = (\<forall>j < length vs. rd j = Resolved (Value (vs ! j)))"
    by (subst list_eq_iff_nth_eq) simp
  then show ?thesis by (simp add: yields_from_def yields_def)
qed

lemma send_loop_values:
  assumes "send_loop rd cb i reply w tr = Some y"
  shows "\<forall>r. fst y = Inr r \<longrightarrow>
           (\<exists>vs. yields_from rd i vs \<and> r = reply @ concat vs
                 \<and> (cb \<noteq> None \<longrightarrow> chunks (snd (snd y)) = chunks tr @ filter (\<lambda>v. v \<noteq> []) vs))"
proof (rule send_loop.raw_induct[OF _ assms], goal_cases)
  case (1 f rd onChunk i reply w tr y)
  note IH = 1(1)
  show ?case
  proof (intro allI impI)
    fix r assume r: "fst y = Inr r"
    show "\<exists>vs. yields_from rd i vs \<and> r = reply @ concat vs
                 \<and> (onChunk \<noteq> None \<longrightarrow> chunks (snd (snd y)) = chunks tr @ filter (\<lambda>v. v \<noteq> []) vs)"
    proof (cases "rd i")
      case (Resolved rr)
      show ?thesis
      proof (cases rr)
        case Done
        with 1(2) Resolved r have "yields_from rd i []" "r = reply" "chunks (snd (snd y)) = chunks tr"
          by (auto simp: chunks_append intro: yields_from_Nil)
        then show ?thesis by (intro exI[of _ "[]"]) simp
      next
        case (Value v)
        have "\<exists>w' tr'. f rd onChunk (Suc i) (reply @ v) w' tr' = Some y
                \<and> (onChunk \<noteq> None \<longrightarrow> chunks tr' = chunks tr @ filter (\<lambda>v. v \<noteq> []) [v])"
          using 1(2) Resolved Value r
          by (fastforce simp: chunks_append split: option.splits if_splits prod.splits)
        then obtain w' tr' where
          rec: "f rd onChunk (Suc i) (reply @ v) w' tr' = Some y"
          and ch: "onChunk \<noteq> None \<longrightarrow> chunks tr' = chunks tr @ filter (\<lambda>v. v \<noteq> []) [v]"
          by blast
        from IH[OF rec] r obtain vs where
          y: "yields_from rd (Suc i) vs" and rr: "r = (reply @ v) @ concat vs"
          and c: "onChunk \<noteq> None \<longrightarrow> chunks (snd (snd y)) = chunks tr' @ filter (\<lambda>v. v \<noteq> []) vs"
          by blast
        from Resolved Value y have "yields_from rd i (v # vs)"
          by (intro yields_from_Cons) simp_all
        with rr c ch show ?thesis by (intro exI[of _ "v # vs"]) auto
      qed
    next
      case (Rejected err)
      with 1(2) r show ?thesis by auto
    next
      case Pending
      with 1(2) show ?thesis by simp
    qed
  qed
qed

lemma send_stdout:
  assumes "send e prompt (Some (stdout_chunk k)) this w = Some (r, this', w', tr)"
  shows "w' = w @ stdout_events k (chunks tr)"
proof -
  have pt: "chunks tr1 = []" if "provision e a this = Some (x, this', tr1)" for a x tr1
    using provision_trace[OF that] by auto
  have ct: "w' = w @ stdout_events k (chunks tr2)"
    if c: "consume e s prompt (Some (stdout_chunk k)) w = Some (r, w', tr2)" for s tr2
  proof -
    from consume_cases[OF c] show ?thesis
    proof
      assume "\<exists>err. promptStreaming e s prompt = Inl err \<and> r = Inl err \<and> w' = w
                \<and> tr2 = [CallPromptStreaming s prompt]"
      then show ?thesis by (auto simp: stdout_events_def)
    next
      assume "\<exists>rd ext. promptStreaming e s prompt = Inr rd \<and> loop_effects ext
            \<and> send_loop rd (Some (stdout_chunk k)) 0 [] w [CallPromptStreaming s prompt, GetReader]
                = Some (r, w', [CallPromptStreaming s prompt, GetReader] @ ext)
            \<and> tr2 = [CallPromptStreaming s prompt, GetReader] @ ext @ [ReleaseLock]"
      then obtain rd ext where
        l: "send_loop rd (Some (stdout_chunk k)) 0 [] w [CallPromptStreaming s prompt, GetReader]
                = Some (r, w', [CallPromptStreaming s prompt, GetReader] @ ext)"
        and t: "tr2 = [CallPromptStreaming s prompt, GetReader] @ ext @ [ReleaseLock]"
        by blast
      from send_loop_stdout[OF l, of k] t show ?thesis
        by (simp add: stdout_events_def chunks_append)
    qed
  qed
  from send_cases[OF assms] show ?thesis
  proof (elim disjE exE conjE, goal_cases)
    case 1
    then show ?case by (simp add: stdout_events_def)
  next
    case 2
    then show ?case by (simp add: stdout_events_def)
  next
    case 3
    then show ?case by (simp add: stdout_events_def)
  next
    case (4 a tr1 err)
    from pt[OF 4(4)] 4 show ?case by (simp add: stdout_events_def)
  next
    case (5 a tr1 s tr2)
    from pt[OF 5(4)] ct[OF 5(5)] 5(6) show ?case by (simp add: chunks_append)
  qed
qed

lemma federation_provision_eq: "federation_provision e a this = provision e a this"
  by (simp add: federation_provision_def provision_def)

lemma consume_no_logs:
  assumes "consume e s prompt cb w = Some (r, w', tr)"
  shows "filter (\<lambda>x. \<not> is_log x) tr = tr"
  using consume_cases[OF assms] by (auto simp: loop_effects_facts(4))

lemma provision_no_logs:
  assumes "provision e a this = Some (r, this', tr)"
  shows "filter (\<lambda>x. \<not> is_log x) tr = tr"
  using provision_trace[OF assms] by auto

lemma federation_consume_eq:
  "federation_consume e s prompt cb w =
     (case consume e s prompt cb w of
        None \<Rightarrow> None
      | Some (Inl err, w', tr) \<Rightarrow> Some (Inl err, w', tr)
      | Some (Inr reply, w', tr) \<Rightarrow>
          Some (Inr reply, w',
                tr @ [ConsoleLog ''[ChatSession] Got reply from Chrome built-in AI:'' reply]))"
  by (auto simp: federation_consume_def consume_def federation_loop_eq
           split: sum.splits option.splits prod.splits)

lemma consume_prompt:
  assumes "consume e s prompt cb w = Some (r, w', tr)" and "CallPromptStreaming s' q \<in> set tr"
  shows "q = prompt"
  using consume_cases[OF assms(1)] assms(2) by (auto simp: loop_effects_def)

lemma send_prompt:
  assumes "send e prompt cb this w = Some (r, this', w', tr)"
    and "CallPromptStreaming s' q \<in> set tr"
  shows "q = prompt"
  using send_cases[OF assms(1)] assms(2)
  by (auto dest: consume_prompt dest!: provision_trace)

lemma provision_chunks:
  assumes "provision e a this = Some (x, this', tr1)"
  shows "chunks tr1 = []"
  using provision_trace[OF assms] by auto

lemma cumulative_example: "cumulative (reader_of [''a'', ''ab'', ''abc''] (Resolved Done))"
  unfolding cumulative_def reader_of_def
  by (auto simp: nth_Cons less_Suc_eq numeral_3_eq_3 split: nat.splits if_splits)


section \<open>The claims\<close>

text \<open>
  C3. Whatever the prompt, when the global \<^verbatim>\<open>LanguageModel\<close> is absent or
  \<^verbatim>\<open>availability()\<close> reports \<^verbatim>\<open>unavailable\<close>, \<^verbatim>\<open>send\<close> throws an error (with the message
  of line 29, respectively line 34), the \<^verbatim>\<open>session\<close> field that was null is still null, and
  \<^verbatim>\<open>LanguageModel.create\<close> has not been called.
\<close>

theorem send_unavailable_fails_without_session:
  assumes "\<not> LanguageModel_defined e \<or> availability e = Resolved Unavailable"
    and "session this = None"
  shows "\<exists>this' tr.
           send e prompt onChunk this w
             = Some (Inl (Error (if \<not> LanguageModel_defined e
                                 then ''Browser does not support Chrome built-in AI.''
                                 else ''Chrome built-in AI model is not available.'')),
                     this', w, tr)
           \<and> session this' = None \<and> creations tr = 0"
  using assms by (auto simp: send_def)

theorem send_unavailable_fails_without_session_witness:
  "availability (capability Unavailable (reader_of [] (Resolved Done))) = Resolved Unavailable
   \<and> session new_ChatSession = None
   \<and> (\<exists>this' tr. send (capability Unavailable (reader_of [] (Resolved Done))) ''hello''
                      (Some record_chunk) new_ChatSession []
                    = Some (Inl (Error ''Chrome built-in AI model is not available.''),
                            this', [], tr)
                 \<and> session this' = None \<and> creations tr = 0)
   \<and> LanguageModel_defined no_capability = False
   \<and> (\<exists>this' tr. send no_capability ''hello'' (Some record_chunk) new_ChatSession []
                    = Some (Inl (Error ''Browser does not support Chrome built-in AI.''),
                            this', [], tr)
                 \<and> session this' = None \<and> creations tr = 0)"
  using send_unavailable_fails_without_session
          [of "capability Unavailable (reader_of [] (Resolved Done))" new_ChatSession
              "''hello''" "Some record_chunk" "[]"]
        send_unavailable_fails_without_session
          [of no_capability new_ChatSession "''hello''" "Some record_chunk" "[]"]
  by (simp add: capability_def no_capability_def new_ChatSession_def)




text \<open>
  C7. When the call gets as far as the stream (the capability is there and not
  unavailable, a session is stored or gets created) and the first read of the stream
  already reports \<^verbatim>\<open>done\<close>, \<^verbatim>\<open>send\<close> returns the empty string, with or without a callback:
  the callback is not called, its state is untouched and nothing is thrown.
\<close>

theorem send_empty_stream:
  assumes "LanguageModel_defined e" and "availability e = Resolved a" and "a \<noteq> Unavailable"
    and "session this = Some s
         \<or> session this = None \<and> create e (a = Downloadable \<or> a = Downloading) = Resolved s"
    and "promptStreaming e s prompt = Inr rd"
    and "rd 0 = Resolved Done"
  shows "\<exists>this' tr. send e prompt onChunk this w = Some (Inr [], this', w, tr) \<and> chunks tr = []"
  using assms
  by (auto simp: send_def provision_def consume_def send_loop.simps[of rd onChunk 0])

theorem send_empty_stream_witness:
  "LanguageModel_defined (capability Available (reader_of [] (Resolved Done)))
   \<and> availability (capability Available (reader_of [] (Resolved Done))) = Resolved Available
   \<and> Available \<noteq> Unavailable
   \<and> (session new_ChatSession = Some (Handle 0)
       \<or> session new_ChatSession = None
         \<and> create (capability Available (reader_of [] (Resolved Done)))
              (Available = Downloadable \<or> Available = Downloading) = Resolved (Handle 0))
   \<and> promptStreaming (capability Available (reader_of [] (Resolved Done))) (Handle 0) ''hello''
       = Inr (reader_of [] (Resolved Done))
   \<and> reader_of [] (Resolved Done) 0 = Resolved Done
   \<and> (\<exists>this' tr. send (capability Available (reader_of [] (Resolved Done))) ''hello''
                     (Some record_chunk) new_ChatSession []
                   = Some (Inr [], this', [], tr) \<and> chunks tr = [])"
  using send_empty_stream
          [of "capability Available (reader_of [] (Resolved Done))" Available new_ChatSession
              "Handle 0" "''hello''" "reader_of [] (Resolved Done)" "Some record_chunk" "[]"]
  by (simp add: capability_def new_ChatSession_def reader_of_def)

text \<open>
  C8. A call of \<^verbatim>\<open>send\<close> (kernel.ts, and likewise ChatSession.ts) that obtained a stream
  reader and exits, by returning or by throwing, has called \<^verbatim>\<open>releaseLock\<close> exactly once, as
  the last thing it did: after every read and every callback call, whether the loop ended
  on \<^verbatim>\<open>done\<close>, on a rejected read or on a callback that threw.
\<close>

theorem reader_released_on_every_exit:
  assumes "send e prompt onChunk this w = Some (r, this', w', tr)
         \<or> ChatSession_ts_send e prompt onChunk this w = Some (r, this', w', tr)"
    and "GetReader \<in> set tr"
  shows "\<exists>tr0. tr = tr0 @ [ReleaseLock] \<and> ReleaseLock \<notin> set tr0"
  using assms(1)
proof
  assume a: "send e prompt onChunk this w = Some (r, this', w', tr)"
  from send_cases[OF a] assms(2) obtain a' tr1 s tr2 where
    p: "provision e a' this = Some (Inr s, this', tr1)"
    and c: "consume e s prompt onChunk w = Some (r, w', tr2)"
    and t: "tr = CallAvailability # tr1 @ tr2"
    using provision_trace[of e _ this] by fastforce
  from provision_trace[OF p] have t1: "tr1 = [] \<or> (\<exists>m. tr1 = [CallCreate m])" .
  from consume_cases[OF c] assms(2) t t1 obtain ext where
    x: "loop_effects ext"
    and t2: "tr2 = [CallPromptStreaming s prompt, GetReader] @ ext @ [ReleaseLock]"
    by auto
  from t t2 show ?thesis by (intro release_last[OF _ x t1]) simp
next
  assume a: "ChatSession_ts_send e prompt onChunk this w = Some (r, this', w', tr)"
  from ts_send_cases[OF a] assms(2) obtain a' tr1 s tr2 where
    p: "provision e a' this = Some (Inr s, this', tr1)"
    and c: "ChatSession_ts_consume e s prompt onChunk w = Some (r, w', tr2)"
    and t: "tr = CallAvailability # tr1 @ tr2"
    using provision_trace[of e _ this] by fastforce
  from provision_trace[OF p] have t1: "tr1 = [] \<or> (\<exists>m. tr1 = [CallCreate m])" .
  from ts_consume_cases[OF c] assms(2) t t1 obtain ext where
    x: "loop_effects ext"
    and t2: "tr2 = [CallPromptStreaming s prompt, GetReader] @ ext @ [ReleaseLock]"
    by auto
  from t t2 show ?thesis by (intro release_last[OF _ x t1]) simp
qed


theorem reader_released_on_every_exit_witness:
  "send (capability Available (reader_of [''ab''] (Rejected (Error ''stream broke'')))) ''hi''
      (Some record_chunk) new_ChatSession []
     = Some (Inl (Error ''stream broke''), \<lparr>session = Some (Handle 0)\<rparr>, [''ab''],
             [CallAvailability, CallCreate False, CallPromptStreaming (Handle 0) ''hi'',
              GetReader, Read, OnChunk ''ab'', Read, ReleaseLock])
   \<and> GetReader \<in> set [CallAvailability, CallCreate False, CallPromptStreaming (Handle 0) ''hi'',
                        GetReader, Read, OnChunk ''ab'', Read, ReleaseLock]
   \<and> (\<exists>tr0. [CallAvailability, CallCreate False, CallPromptStreaming (Handle 0) ''hi'',
               GetReader, Read, OnChunk ''ab'', Read, ReleaseLock] = tr0 @ [ReleaseLock]
             \<and> ReleaseLock \<notin> set tr0)
   \<and> ChatSession_ts_send (capability Downloading (reader_of [''ab'', ''abcd''] (Resolved Done)))
        ''hi'' (Some failing_chunk) new_ChatSession []
     = Some (Inl (Error ''callback failed''), \<lparr>session = Some (Handle 0)\<rparr>, [],
             [CallAvailability, CallCreate True, CallPromptStreaming (Handle 0) ''hi'',
              GetReader, Read, OnChunk ''ab'', ReleaseLock])
   \<and> GetReader \<in> set [CallAvailability, CallCreate True, CallPromptStreaming (Handle 0) ''hi'',
                        GetReader, Read, OnChunk ''ab'', ReleaseLock]
   \<and> (\<exists>tr0. [CallAvailability, CallCreate True, CallPromptStreaming (Handle 0) ''hi'',
               GetReader, Read, OnChunk ''ab'', ReleaseLock] = tr0 @ [ReleaseLock]
             \<and> ReleaseLock \<notin> set tr0)"
proof -
  have h: "send (capability Available (reader_of [''ab''] (Rejected (Error ''stream broke''))))
             ''hi'' (Some record_chunk) new_ChatSession []
           = Some (Inl (Error ''stream broke''), \<lparr>session = Some (Handle 0)\<rparr>, [''ab''],
                   [CallAvailability, CallCreate False, CallPromptStreaming (Handle 0) ''hi'',
                    GetReader, Read, OnChunk ''ab'', Read, ReleaseLock])"
    by code_simp
  have g: "GetReader \<in> set [CallAvailability, CallCreate False,
                             CallPromptStreaming (Handle 0) ''hi'',
                             GetReader, Read, OnChunk ''ab'', Read, ReleaseLock]"
    by simp
  have h': "ChatSession_ts_send
              (capability Downloading (reader_of [''ab'', ''abcd''] (Resolved Done)))
              ''hi'' (Some failing_chunk) new_ChatSession []
            = Some (Inl (Error ''callback failed''), \<lparr>session = Some (Handle 0)\<rparr>, [],
                    [CallAvailability, CallCreate True, CallPromptStreaming (Handle 0) ''hi'',
                     GetReader, Read, OnChunk ''ab'', ReleaseLock])"
    by code_simp
  have g': "GetReader \<in> set [CallAvailability, CallCreate True,
                              CallPromptStreaming (Handle 0) ''hi'',
                              GetReader, Read, OnChunk ''ab'', ReleaseLock]"
    by simp
  from reader_released_on_every_exit[OF disjI1[OF h] g]
       reader_released_on_every_exit[OF disjI2[OF h'] g'] h g h' g'
  show ?thesis by blast
qed

text \<open>
  C2. Two calls of \<^verbatim>\<open>send\<close> in sequence on a new \<^verbatim>\<open>ChatSession\<close>, the first of which
  returns a reply: \<^verbatim>\<open>LanguageModel.create\<close> is called once over the two calls, none of it in
  the second, which runs on the session the first one stored (on the object the first call
  left, lines 37 to 50 find the session in any surrounding and call nothing).
\<close>

theorem second_send_reuses_session:
  assumes "send e1 prompt1 cb1 new_ChatSession w0 = Some (Inr reply1, this1, w1, tr1)"
    and "send e2 prompt2 cb2 this1 w1 = Some (r2, this2, w2, tr2)"
  shows "creations (tr1 @ tr2) = 1 \<and> creations tr2 = 0
         \<and> (\<exists>s. session this1 = Some s \<and> session this2 = Some s
                \<and> (\<forall>e a. provision e a this1 = Some (Inr s, this1, [])))"
proof -
  from send_success_creates_once[OF assms(1)] obtain s where
    c1: "creations tr1 = 1" and s1: "session this1 = Some s"
    by (auto simp: new_ChatSession_def)
  from s1 have "\<forall>e a. provision e a this1 = Some (Inr s, this1, [])"
    by (simp add: provision_def)
  with send_reuses_session[OF assms(2) s1] c1 s1 show ?thesis
    by (simp add: creations_append)
qed

theorem second_send_reuses_session_witness:
  "send (capability Downloadable (reader_of [''ab'', ''cd''] (Resolved Done))) ''hi''
      (Some record_chunk) new_ChatSession []
     = Some (Inr ''abcd'', \<lparr>session = Some (Handle 0)\<rparr>, [''ab'', ''cd''],
             [CallAvailability, CallCreate True, CallPromptStreaming (Handle 0) ''hi'',
              GetReader, Read, OnChunk ''ab'', Read, OnChunk ''cd'', Read, ReleaseLock])
   \<and> send (capability Available (reader_of [''x''] (Rejected (Error ''quota'')))) ''again''
        (Some record_chunk) \<lparr>session = Some (Handle 0)\<rparr> [''ab'', ''cd'']
     = Some (Inl (Error ''quota''), \<lparr>session = Some (Handle 0)\<rparr>, [''ab'', ''cd'', ''x''],
             [CallAvailability, CallPromptStreaming (Handle 0) ''again'', GetReader,
              Read, OnChunk ''x'', Read, ReleaseLock])
   \<and> creations ([CallAvailability, CallCreate True, CallPromptStreaming (Handle 0) ''hi'',
                   GetReader, Read, OnChunk ''ab'', Read, OnChunk ''cd'', Read, ReleaseLock]
                  @ [CallAvailability, CallPromptStreaming (Handle 0) ''again'', GetReader,
                     Read, OnChunk ''x'', Read, ReleaseLock]) = 1"
proof -
  have h1: "send (capability Downloadable (reader_of [''ab'', ''cd''] (Resolved Done))) ''hi''
      (Some record_chunk) new_ChatSession []
     = Some (Inr ''abcd'', \<lparr>session = Some (Handle 0)\<rparr>, [''ab'', ''cd''],
             [CallAvailability, CallCreate True, CallPromptStreaming (Handle 0) ''hi'',
              GetReader, Read, OnChunk ''ab'', Read, OnChunk ''cd'', Read, ReleaseLock])"
    by code_simp
  have h2: "send (capability Available (reader_of [''x''] (Rejected (Error ''quota'')))) ''again''
        (Some record_chunk) \<lparr>session = Some (Handle 0)\<rparr> [''ab'', ''cd'']
     = Some (Inl (Error ''quota''), \<lparr>session = Some (Handle 0)\<rparr>, [''ab'', ''cd'', ''x''],
             [CallAvailability, CallPromptStreaming (Handle 0) ''again'', GetReader,
              Read, OnChunk ''x'', Read, ReleaseLock])"
    by code_simp
  from second_send_reuses_session[OF h1 h2] h1 h2 show ?thesis by blast
qed

text \<open>
  C9. \<^verbatim>\<open>send\<close> of federation.ts and \<^verbatim>\<open>send\<close> of kernel.ts agree in every surrounding, on
  every prompt, callback and object: one returns exactly when the other does, and then
  with the same thrown value or the same reply, the same object, the same callback state
  and the same effects in the same order (among them the callback calls and their
  arguments), apart from the two console messages that only federation.ts writes.
\<close>

theorem federation_send_equivalent:
  "map_option without_logs (federation_send e prompt onChunk this w)
     = send e prompt onChunk this w"
proof (cases "LanguageModel_defined e")
  case False
  then show ?thesis by (simp add: federation_send_def send_def without_logs_def)
next
  case True
  note d = this
  show ?thesis
  proof (cases "availability e")
    case Pending
    with d show ?thesis by (simp add: federation_send_def send_def)
  next
    case (Rejected err)
    with d show ?thesis by (simp add: federation_send_def send_def without_logs_def)
  next
    case (Resolved a)
    note av = this
    show ?thesis
    proof (cases "a = Unavailable")
      case True
      with d av show ?thesis by (simp add: federation_send_def send_def without_logs_def)
    next
      case False
      note na = this
      show ?thesis
      proof (cases "provision e a this")
        case None
        with d av na show ?thesis
          by (simp add: federation_send_def send_def federation_provision_eq)
      next
        case (Some y)
        then obtain r1 this' tr1 where p: "provision e a this = Some (r1, this', tr1)"
          by (cases y) auto
        note n1 = provision_no_logs[OF p]
        show ?thesis
        proof (cases r1)
          case (Inl err)
          with d av na p n1 show ?thesis
            by (simp add: federation_send_def send_def federation_provision_eq without_logs_def)
        next
          case (Inr s)
          show ?thesis
          proof (cases "consume e s prompt onChunk w")
            case None
            with d av na p Inr show ?thesis
              by (simp add: federation_send_def send_def federation_provision_eq
                    federation_consume_eq)
          next
            case (Some z)
            then obtain r w' tr2 where c: "consume e s prompt onChunk w = Some (r, w', tr2)"
              by (cases z) auto
            note n2 = consume_no_logs[OF c]
            from d av na p Inr c n1 n2 show ?thesis
              by (cases r)
                 (simp_all add: federation_send_def send_def federation_provision_eq
                    federation_consume_eq without_logs_def)
          qed
        qed
      qed
    qed
  qed
qed

text \<open>
  C1, as the claim states it, fails for \<^verbatim>\<open>send\<close> of ChatSession.ts: on the stream of the
  two deltas \<^verbatim>\<open>ab\<close> and \<^verbatim>\<open>cd\<close> the call succeeds, the callback is given \<^verbatim>\<open>ab\<close> only
  (the slice of \<^verbatim>\<open>cd\<close> from position 2 is empty), and the reply returned is \<^verbatim>\<open>cd\<close>.
\<close>

theorem snapshot_slices_lose_deltas_counterexample:
  "ChatSession_ts_send (capability Available (reader_of [''ab'', ''cd''] (Resolved Done))) ''hi''
      (Some record_chunk) new_ChatSession []
     = Some (Inr ''cd'', \<lparr>session = Some (Handle 0)\<rparr>, [''ab''],
             [CallAvailability, CallCreate False, CallPromptStreaming (Handle 0) ''hi'',
              GetReader, Read, OnChunk ''ab'', Read, Read, ReleaseLock])
   \<and> concat (chunks [CallAvailability, CallCreate False, CallPromptStreaming (Handle 0) ''hi'',
                       GetReader, Read, OnChunk ''ab'', Read, Read, ReleaseLock]) \<noteq> ''cd''"
  by code_simp

text \<open>
  C1, amended. A successful call of \<^verbatim>\<open>send\<close> of kernel.ts with a callback returns the
  concatenation, in call order, of the strings the callback was given, whatever the stream
  yields (snapshots or deltas). A successful call of \<^verbatim>\<open>send\<close> of ChatSession.ts with a
  callback does so when the stream yields cumulative snapshots, each value extending the
  one before.
\<close>

theorem chunks_concat_is_reply:
  "(send e prompt (Some f) this w = Some (Inr reply, this', w', tr)
      \<longrightarrow> concat (chunks tr) = reply)
   \<and> ((\<forall>s rd. promptStreaming e s prompt = Inr rd \<longrightarrow> cumulative rd)
      \<longrightarrow> ChatSession_ts_send e prompt (Some f) this w = Some (Inr reply, this', w', tr)
      \<longrightarrow> concat (chunks tr) = reply)"
proof (intro conjI impI)
  assume a: "send e prompt (Some f) this w = Some (Inr reply, this', w', tr)"
  from send_cases[OF a] obtain a' tr1 s tr2 where
    p: "provision e a' this = Some (Inr s, this', tr1)"
    and c: "consume e s prompt (Some f) w = Some (Inr reply, w', tr2)"
    and t: "tr = CallAvailability # tr1 @ tr2"
    by auto
  from consume_cases[OF c] obtain rd ext where
    l: "send_loop rd (Some f) 0 [] w [CallPromptStreaming s prompt, GetReader]
          = Some (Inr reply, w', [CallPromptStreaming s prompt, GetReader] @ ext)"
    and t2: "tr2 = [CallPromptStreaming s prompt, GetReader] @ ext @ [ReleaseLock]"
    by auto
  from send_loop_concat[OF l] have "concat (chunks ext) = reply" by simp
  with t t2 provision_chunks[OF p] show "concat (chunks tr) = reply"
    by (simp add: chunks_append)
next
  assume cu: "\<forall>s rd. promptStreaming e s prompt = Inr rd \<longrightarrow> cumulative rd"
    and a: "ChatSession_ts_send e prompt (Some f) this w = Some (Inr reply, this', w', tr)"
  from ts_send_cases[OF a] obtain a' tr1 s tr2 where
    p: "provision e a' this = Some (Inr s, this', tr1)"
    and c: "ChatSession_ts_consume e s prompt (Some f) w = Some (Inr reply, w', tr2)"
    and t: "tr = CallAvailability # tr1 @ tr2"
    by auto
  from ts_consume_cases[OF c] obtain rd ext where
    ps: "promptStreaming e s prompt = Inr rd"
    and l: "ChatSession_ts_send_loop rd (Some f) 0 [] 0 w [CallPromptStreaming s prompt, GetReader]
          = Some (Inr reply, w', [CallPromptStreaming s prompt, GetReader] @ ext)"
    and t2: "tr2 = [CallPromptStreaming s prompt, GetReader] @ ext @ [ReleaseLock]"
    by auto
  from cu ps have "cumulative rd" by blast
  with ts_loop_concat[OF l] have "concat (chunks ext) = reply" by simp
  with t t2 provision_chunks[OF p] show "concat (chunks tr) = reply"
    by (simp add: chunks_append)
qed

theorem chunks_concat_is_reply_witness:
  "send (capability Available (reader_of [''ab'', ''cd''] (Resolved Done))) ''hi''
      (Some record_chunk) new_ChatSession []
     = Some (Inr ''abcd'', \<lparr>session = Some (Handle 0)\<rparr>, [''ab'', ''cd''],
             [CallAvailability, CallCreate False, CallPromptStreaming (Handle 0) ''hi'',
              GetReader, Read, OnChunk ''ab'', Read, OnChunk ''cd'', Read, ReleaseLock])
   \<and> concat (chunks [CallAvailability, CallCreate False, CallPromptStreaming (Handle 0) ''hi'',
                       GetReader, Read, OnChunk ''ab'', Read, OnChunk ''cd'', Read, ReleaseLock])
       = ''abcd''
   \<and> cumulative (reader_of [''a'', ''ab'', ''abc''] (Resolved Done))
   \<and> ChatSession_ts_send (capability Available (reader_of [''a'', ''ab'', ''abc''] (Resolved Done)))
        ''hi'' (Some record_chunk) new_ChatSession []
     = Some (Inr ''abc'', \<lparr>session = Some (Handle 0)\<rparr>, [''a'', ''b'', ''c''],
             [CallAvailability, CallCreate False, CallPromptStreaming (Handle 0) ''hi'',
              GetReader, Read, OnChunk ''a'', Read, OnChunk ''b'', Read, OnChunk ''c'', Read,
              ReleaseLock])
   \<and> concat (chunks [CallAvailability, CallCreate False, CallPromptStreaming (Handle 0) ''hi'',
              GetReader, Read, OnChunk ''a'', Read, OnChunk ''b'', Read, OnChunk ''c'', Read,
              ReleaseLock]) = ''abc''"
proof -
  let ?e1 = "capability Available (reader_of [''ab'', ''cd''] (Resolved Done))"
  let ?t1 = "[CallAvailability, CallCreate False, CallPromptStreaming (Handle 0) ''hi'',
              GetReader, Read, OnChunk ''ab'', Read, OnChunk ''cd'', Read, ReleaseLock]"
  let ?e2 = "capability Available (reader_of [''a'', ''ab'', ''abc''] (Resolved Done))"
  let ?t2 = "[CallAvailability, CallCreate False, CallPromptStreaming (Handle 0) ''hi'',
              GetReader, Read, OnChunk ''a'', Read, OnChunk ''b'', Read, OnChunk ''c'', Read,
              ReleaseLock]"
  have h1: "send ?e1 ''hi'' (Some record_chunk) new_ChatSession []
              = Some (Inr ''abcd'', \<lparr>session = Some (Handle 0)\<rparr>, [''ab'', ''cd''], ?t1)"
    by code_simp
  have h2: "ChatSession_ts_send ?e2 ''hi'' (Some record_chunk) new_ChatSession []
              = Some (Inr ''abc'', \<lparr>session = Some (Handle 0)\<rparr>, [''a'', ''b'', ''c''], ?t2)"
    by code_simp
  have cu: "cumulative (reader_of [''a'', ''ab'', ''abc''] (Resolved Done))"
    by (rule cumulative_example)
  have cu': "\<forall>s rd. promptStreaming ?e2 s ''hi'' = Inr rd \<longrightarrow> cumulative rd"
    using cu by (simp add: capability_def)
  from chunks_concat_is_reply
         [of ?e1 "''hi''" record_chunk new_ChatSession "[]" "''abcd''"
             "\<lparr>session = Some (Handle 0)\<rparr>" "[''ab'', ''cd'']" ?t1] h1
  have r1: "concat (chunks ?t1) = ''abcd''" by blast
  from chunks_concat_is_reply
         [of ?e2 "''hi''" record_chunk new_ChatSession "[]" "''abc''"
             "\<lparr>session = Some (Handle 0)\<rparr>" "[''a'', ''b'', ''c'']" ?t2] h2 cu'
  have r2: "concat (chunks ?t2) = ''abc''" by blast
  from h1 h2 cu r1 r2 show ?thesis by blast
qed

text \<open>
  C10. When the content object has no \<^verbatim>\<open>code\<close> property, or has it as \<^verbatim>\<open>undefined\<close> or
  \<^verbatim>\<open>null\<close>, \<^verbatim>\<open>String(content.code ?? "")\<close> is the empty string and does not throw, and
  \<^verbatim>\<open>executeRequest\<close> behaves as \<^verbatim>\<open>send\<close> on the empty prompt dictates: it never returns when
  that call never returns, it returns the \<^verbatim>\<open>ok\<close> response when that call returns a reply, the
  \<^verbatim>\<open>error\<close> response (after publishing the error) when that call throws a value whose message
  expression evaluates, and it rejects when that expression throws. The prompt of every
  \<^verbatim>\<open>promptStreaming\<close> call in its trace is the empty string.
\<close>

theorem executeRequest_without_code:
  assumes "map_of content ''code'' = None \<or> map_of content ''code'' = Some JUndefined
           \<or> map_of content ''code'' = Some JNull"
  shows "String_js (nullish (get_prop content ''code'') (JStr [])) = Inr []
         \<and> (send e [] (Some (stdout_chunk this)) (chat this) (iopub this) = None
              \<longrightarrow> executeRequest e this content = None)
         \<and> (\<forall>reply chat' out tr.
               send e [] (Some (stdout_chunk this)) (chat this) (iopub this)
                 = Some (Inr reply, chat', out, tr)
               \<longrightarrow> executeRequest e this content
                     = Some (Inr (JObj [(''status'', JStr ''ok''),
                                        (''execution_count'', JNum (executionCount this)),
                                        (''payload'', JArr []),
                                        (''user_expressions'', JObj [])]),
                             this\<lparr>chat := chat', iopub := out\<rparr>, tr))
         \<and> (\<forall>err chat' out tr m.
               send e [] (Some (stdout_chunk this)) (chat this) (iopub this)
                 = Some (Inl err, chat', out, tr)
               \<longrightarrow> error_message err = Inr m
               \<longrightarrow> executeRequest e this content
                     = Some (Inr (JObj [(''status'', JStr ''error''),
                                        (''execution_count'', JNum (executionCount this)),
                                        (''ename'', JStr ''Error''),
                                        (''evalue'', m),
                                        (''traceback'', JArr [])]),
                             this\<lparr>chat := chat',
                                  iopub := out @ [PublishExecuteError
                                                    (JObj [(''ename'', JStr ''Error''),
                                                           (''evalue'', m),
                                                           (''traceback'', JArr [])])
                                                    (parentHeader this)]\<rparr>,
                             tr))
         \<and> (\<forall>err chat' out tr err'.
               send e [] (Some (stdout_chunk this)) (chat this) (iopub this)
                 = Some (Inl err, chat', out, tr)
               \<longrightarrow> error_message err = Inl err'
               \<longrightarrow> executeRequest e this content
                     = Some (Inl err', this\<lparr>chat := chat', iopub := out\<rparr>, tr))
         \<and> (\<forall>r this' tr s q.
               executeRequest e this content = Some (r, this', tr)
               \<longrightarrow> CallPromptStreaming s q \<in> set tr \<longrightarrow> q = [])"
proof -
  from assms have c: "String_js (nullish (get_prop content ''code'') (JStr [])) = Inr []"
    by (auto simp: get_prop_def nullish_def)
  have "q = []"
    if "executeRequest e this content = Some (r, this', tr)"
      and "CallPromptStreaming s q \<in> set tr" for r this' tr s q
    using that unfolding executeRequest_def c
    by (auto split: option.splits sum.splits prod.splits dest: send_prompt)
  then show ?thesis using c by (auto simp: executeRequest_def)
qed

theorem executeRequest_without_code_witness:
  "map_of [(''silent'', JBool False)] ''code'' = None
   \<and> String_js (nullish (get_prop [(''silent'', JBool False)] ''code'') (JStr [])) = Inr []
   \<and> send (capability Available (reader_of [''Hel'', '''', ''lo''] (Resolved Done)))
        [] (Some (stdout_chunk a_kernel)) (chat a_kernel) (iopub a_kernel)
     = Some (Inr ''Hello'', \<lparr>session = Some (Handle 0)\<rparr>,
             [Stream (JObj [(''name'', JStr ''stdout''), (''text'', JStr ''Hel'')])
                     (JObj [(''msg_id'', JStr ''m1'')]),
              Stream (JObj [(''name'', JStr ''stdout''), (''text'', JStr ''lo'')])
                     (JObj [(''msg_id'', JStr ''m1'')])],
             [CallAvailability, CallCreate False, CallPromptStreaming (Handle 0) [],
              GetReader, Read, OnChunk ''Hel'', Read, Read, OnChunk ''lo'', Read, ReleaseLock])
   \<and> executeRequest (capability Available (reader_of [''Hel'', '''', ''lo''] (Resolved Done)))
        a_kernel [(''silent'', JBool False)]
     = Some (Inr (JObj [(''status'', JStr ''ok''),
                        (''execution_count'', JNum 7),
                        (''payload'', JArr []),
                        (''user_expressions'', JObj [])]),
             \<lparr>chat = \<lparr>session = Some (Handle 0)\<rparr>, executionCount = 7,
              parentHeader = JObj [(''msg_id'', JStr ''m1'')],
              iopub = [Stream (JObj [(''name'', JStr ''stdout''), (''text'', JStr ''Hel'')])
                              (JObj [(''msg_id'', JStr ''m1'')]),
                       Stream (JObj [(''name'', JStr ''stdout''), (''text'', JStr ''lo'')])
                              (JObj [(''msg_id'', JStr ''m1'')])]\<rparr>,
             [CallAvailability, CallCreate False, CallPromptStreaming (Handle 0) [],
              GetReader, Read, OnChunk ''Hel'', Read, Read, OnChunk ''lo'', Read, ReleaseLock])"
proof -
  have h: "map_of [(''silent'', JBool False)] ''code'' = None" by simp
  have s: "send (capability Available (reader_of [''Hel'', '''', ''lo''] (Resolved Done)))
        [] (Some (stdout_chunk a_kernel)) (chat a_kernel) (iopub a_kernel)
     = Some (Inr ''Hello'', \<lparr>session = Some (Handle 0)\<rparr>,
             [Stream (JObj [(''name'', JStr ''stdout''), (''text'', JStr ''Hel'')])
                     (JObj [(''msg_id'', JStr ''m1'')]),
              Stream (JObj [(''name'', JStr ''stdout''), (''text'', JStr ''lo'')])
                     (JObj [(''msg_id'', JStr ''m1'')])],
             [CallAvailability, CallCreate False, CallPromptStreaming (Handle 0) [],
              GetReader, Read, OnChunk ''Hel'', Read, Read, OnChunk ''lo'', Read, ReleaseLock])"
    by code_simp
  note t = executeRequest_without_code
             [OF disjI1[OF h],
              of "capability Available (reader_of [''Hel'', '''', ''lo''] (Resolved Done))" a_kernel]
  from t have c: "String_js (nullish (get_prop [(''silent'', JBool False)] ''code'') (JStr []))
                    = Inr []"
    by blast
  from t s have
    "executeRequest (capability Available (reader_of [''Hel'', '''', ''lo''] (Resolved Done)))
        a_kernel [(''silent'', JBool False)]
     = Some (Inr (JObj [(''status'', JStr ''ok''),
                        (''execution_count'', JNum (executionCount a_kernel)),
                        (''payload'', JArr []),
                        (''user_expressions'', JObj [])]),
             a_kernel\<lparr>chat := \<lparr>session = Some (Handle 0)\<rparr>,
                      iopub := [Stream (JObj [(''name'', JStr ''stdout''), (''text'', JStr ''Hel'')])
                                      (JObj [(''msg_id'', JStr ''m1'')]),
                                Stream (JObj [(''name'', JStr ''stdout''), (''text'', JStr ''lo'')])
                                      (JObj [(''msg_id'', JStr ''m1'')])]\<rparr>,
             [CallAvailability, CallCreate False, CallPromptStreaming (Handle 0) [],
              GetReader, Read, OnChunk ''Hel'', Read, Read, OnChunk ''lo'', Read, ReleaseLock])"
    by blast
  with h c s show ?thesis by (simp add: a_kernel_def)
qed




text \<open>
  C5. When \<^verbatim>\<open>send\<close> returns a reply during an execute request, the stream it read yielded
  some values \<open>vs\<close> and then reported \<^verbatim>\<open>done\<close>; \<^verbatim>\<open>executeRequest\<close> has published one
  \<^verbatim>\<open>stdout\<close> stream event for each non-empty value of \<open>vs\<close>, in the order of \<open>vs\<close>, and
  nothing else, and returns the response with status \<^verbatim>\<open>ok\<close> whose \<^verbatim>\<open>execution_count\<close> is the
  kernel's \<^verbatim>\<open>executionCount\<close>.
\<close>

theorem executeRequest_ok:
  assumes "String_js (nullish (get_prop content ''code'') (JStr [])) = Inr code"
    and "send e code (Some (stdout_chunk this)) (chat this) (iopub this)
           = Some (Inr reply, chat', out, tr)"
  shows "\<exists>s rd vs.
           session chat' = Some s
           \<and> promptStreaming e s code = Inr rd
           \<and> yields rd vs
           \<and> executeRequest e this content
               = Some (Inr (JObj [(''status'', JStr ''ok''),
                                  (''execution_count'', JNum (executionCount this)),
                                  (''payload'', JArr []),
                                  (''user_expressions'', JObj [])]),
                       this\<lparr>chat := chat',
                            iopub := iopub this
                                     @ stdout_events this (filter (\<lambda>v. v \<noteq> []) vs)\<rparr>,
                       tr)"
proof -
  let ?cb = "Some (stdout_chunk this)"
  from send_stdout[OF assms(2)] have out: "out = iopub this @ stdout_events this (chunks tr)" .
  from send_cases[OF assms(2)] obtain a tr1 s tr2 where
    p: "provision e a (chat this) = Some (Inr s, chat', tr1)"
    and c: "consume e s code ?cb (iopub this) = Some (Inr reply, out, tr2)"
    and t: "tr = CallAvailability # tr1 @ tr2"
    by auto
  from provision_cases[OF p] have s: "session chat' = Some s" by auto
  from consume_cases[OF c] obtain rd ext where
    ps: "promptStreaming e s code = Inr rd"
    and l: "send_loop rd ?cb 0 [] (iopub this) [CallPromptStreaming s code, GetReader]
          = Some (Inr reply, out, [CallPromptStreaming s code, GetReader] @ ext)"
    and t2: "tr2 = [CallPromptStreaming s code, GetReader] @ ext @ [ReleaseLock]"
    by auto
  from send_loop_values[OF l] obtain vs where
    y: "yields_from rd 0 vs" and ch: "chunks ext = filter (\<lambda>v. v \<noteq> []) vs"
    by (auto simp: chunks_append)
  from t t2 ch provision_chunks[OF p] have "chunks tr = filter (\<lambda>v. v \<noteq> []) vs"
    by (simp add: chunks_append)
  with out assms have
    "executeRequest e this content
       = Some (Inr (JObj [(''status'', JStr ''ok''),
                          (''execution_count'', JNum (executionCount this)),
                          (''payload'', JArr []),
                          (''user_expressions'', JObj [])]),
               this\<lparr>chat := chat',
                    iopub := iopub this @ stdout_events this (filter (\<lambda>v. v \<noteq> []) vs)\<rparr>,
               tr)"
    by (simp add: executeRequest_def)
  with s ps y show ?thesis unfolding yields_from_0 by blast
qed

theorem executeRequest_ok_witness:
  "String_js (nullish (get_prop [(''code'', JStr ''hi'')] ''code'') (JStr [])) = Inr ''hi''
   \<and> send (capability Available (reader_of [''Hel'', '''', ''lo''] (Resolved Done)))
        ''hi'' (Some (stdout_chunk a_kernel)) (chat a_kernel) (iopub a_kernel)
     = Some (Inr ''Hello'', \<lparr>session = Some (Handle 0)\<rparr>,
             [Stream (JObj [(''name'', JStr ''stdout''), (''text'', JStr ''Hel'')])
                     (JObj [(''msg_id'', JStr ''m1'')]),
              Stream (JObj [(''name'', JStr ''stdout''), (''text'', JStr ''lo'')])
                     (JObj [(''msg_id'', JStr ''m1'')])],
             [CallAvailability, CallCreate False, CallPromptStreaming (Handle 0) ''hi'',
              GetReader, Read, OnChunk ''Hel'', Read, Read, OnChunk ''lo'', Read, ReleaseLock])
   \<and> (\<exists>s rd vs.
         session \<lparr>session = Some (Handle 0)\<rparr> = Some s
         \<and> promptStreaming (capability Available (reader_of [''Hel'', '''', ''lo''] (Resolved Done)))
              s ''hi''
             = Inr rd
         \<and> yields rd vs
         \<and> executeRequest (capability Available (reader_of [''Hel'', '''', ''lo''] (Resolved Done)))
              a_kernel [(''code'', JStr ''hi'')]
             = Some (Inr (JObj [(''status'', JStr ''ok''),
                                (''execution_count'', JNum (executionCount a_kernel)),
                                (''payload'', JArr []),
                                (''user_expressions'', JObj [])]),
                     a_kernel\<lparr>chat := \<lparr>session = Some (Handle 0)\<rparr>,
                              iopub := iopub a_kernel
                                       @ stdout_events a_kernel (filter (\<lambda>v. v \<noteq> []) vs)\<rparr>,
                     [CallAvailability, CallCreate False, CallPromptStreaming (Handle 0) ''hi'',
                      GetReader, Read, OnChunk ''Hel'', Read, Read, OnChunk ''lo'', Read,
                      ReleaseLock]))
   \<and> executeRequest (capability Available (reader_of [''Hel'', '''', ''lo''] (Resolved Done)))
        a_kernel [(''code'', JStr ''hi'')]
       = Some (Inr (JObj [(''status'', JStr ''ok''),
                          (''execution_count'', JNum 7),
                          (''payload'', JArr []),
                          (''user_expressions'', JObj [])]),
               \<lparr>chat = \<lparr>session = Some (Handle 0)\<rparr>, executionCount = 7,
                parentHeader = JObj [(''msg_id'', JStr ''m1'')],
                iopub = [Stream (JObj [(''name'', JStr ''stdout''), (''text'', JStr ''Hel'')])
                                (JObj [(''msg_id'', JStr ''m1'')]),
                         Stream (JObj [(''name'', JStr ''stdout''), (''text'', JStr ''lo'')])
                                (JObj [(''msg_id'', JStr ''m1'')])]\<rparr>,
               [CallAvailability, CallCreate False, CallPromptStreaming (Handle 0) ''hi'',
                GetReader, Read, OnChunk ''Hel'', Read, Read, OnChunk ''lo'', Read,
                ReleaseLock])
   \<and> yields (reader_of [''Hel'', '''', ''lo''] (Resolved Done)) [''Hel'', '''', ''lo'']"
proof -
  have c: "String_js (nullish (get_prop [(''code'', JStr ''hi'')] ''code'') (JStr [])) = Inr ''hi''"
    by code_simp
  have y: "yields (reader_of [''Hel'', '''', ''lo''] (Resolved Done)) [''Hel'', '''', ''lo'']"
    by code_simp
  have h: "send (capability Available (reader_of [''Hel'', '''', ''lo''] (Resolved Done)))
        ''hi'' (Some (stdout_chunk a_kernel)) (chat a_kernel) (iopub a_kernel)
     = Some (Inr ''Hello'', \<lparr>session = Some (Handle 0)\<rparr>,
             [Stream (JObj [(''name'', JStr ''stdout''), (''text'', JStr ''Hel'')])
                     (JObj [(''msg_id'', JStr ''m1'')]),
              Stream (JObj [(''name'', JStr ''stdout''), (''text'', JStr ''lo'')])
                     (JObj [(''msg_id'', JStr ''m1'')])],
             [CallAvailability, CallCreate False, CallPromptStreaming (Handle 0) ''hi'',
              GetReader, Read, OnChunk ''Hel'', Read, Read, OnChunk ''lo'', Read, ReleaseLock])"
    by code_simp
  have v: "executeRequest (capability Available (reader_of [''Hel'', '''', ''lo''] (Resolved Done)))
        a_kernel [(''code'', JStr ''hi'')]
       = Some (Inr (JObj [(''status'', JStr ''ok''),
                          (''execution_count'', JNum 7),
                          (''payload'', JArr []),
                          (''user_expressions'', JObj [])]),
               \<lparr>chat = \<lparr>session = Some (Handle 0)\<rparr>, executionCount = 7,
                parentHeader = JObj [(''msg_id'', JStr ''m1'')],
                iopub = [Stream (JObj [(''name'', JStr ''stdout''), (''text'', JStr ''Hel'')])
                                (JObj [(''msg_id'', JStr ''m1'')]),
                         Stream (JObj [(''name'', JStr ''stdout''), (''text'', JStr ''lo'')])
                                (JObj [(''msg_id'', JStr ''m1'')])]\<rparr>,
               [CallAvailability, CallCreate False, CallPromptStreaming (Handle 0) ''hi'',
                GetReader, Read, OnChunk ''Hel'', Read, Read, OnChunk ''lo'', Read,
                ReleaseLock])"
    by code_simp
  from executeRequest_ok[OF c h] c h v y show ?thesis by blast
qed

end
